theory Spec2Isabelle
  imports Main
begin

section \<open>The geo-locations view (views/groupLocations/index.jsx)\<close>

subsection \<open>Data\<close>

text \<open>
  The body of \<^verbatim>\<open>GET /issues/{groupId}/tags/user.location/\<close> is meant to be a JSON object
  with a field \<^verbatim>\<open>topValues\<close>, an array of \<^verbatim>\<open>{value: string, count: number}\<close>: a
  \<open>response\<close>. The success callback stores whatever the API client passes it, without a
  check, so a \<open>body\<close> is \<^verbatim>\<open>null\<close>, \<^verbatim>\<open>undefined\<close>, a tag response, or any other value (one
  that has no \<^verbatim>\<open>topValues\<close> array, such as \<^verbatim>\<open>{}\<close>). The component state is
  \<^verbatim>\<open>{loading, error, data}\<close>, and \<^verbatim>\<open>data\<close> holds a body.
\<close>

record tag =
  tag_value :: string
  tag_count :: int

record response =
  topValues :: "tag list"

datatype body =
  NullBody
| UndefinedBody
| OtherBody
| TagResponse response

record view_state =
  loading :: bool
  error :: bool
  data :: body

text \<open>
  The argument of \<^verbatim>\<open>this.setState\<close>: an object holding some of the state's fields. A field
  that the object does not have is \<open>None\<close> and keeps its value.
\<close>

record view_patch =
  set_loading :: "bool option"
  set_error :: "bool option"
  set_data :: "body option"

definition setState :: "view_state \<Rightarrow> view_patch \<Rightarrow> view_state" where
  "setState s p =
     \<lparr>loading = (case set_loading p of None \<Rightarrow> loading s | Some b \<Rightarrow> b),
      error = (case set_error p of None \<Rightarrow> error s | Some b \<Rightarrow> b),
      data = (case set_data p of None \<Rightarrow> data s | Some d \<Rightarrow> d)\<rparr>"

subsection \<open>Life cycle\<close>

definition getInitialState :: view_state where
  "getInitialState = \<lparr>loading = True, error = False, data = NullBody\<rparr>"

text \<open>
  \<^verbatim>\<open>fetchData\<close> sets \<^verbatim>\<open>{loading: true, error: false}\<close> and hands the URL with the two
  callbacks to \<^verbatim>\<open>this.api.request\<close>. The model returns the new state and the URL requested;
  the callbacks are \<open>request_success\<close> and \<open>request_error\<close> below.
\<close>

definition fetchData :: "string \<Rightarrow> view_state \<Rightarrow> view_state \<times> string" where
  "fetchData groupId s =
     (setState s \<lparr>set_loading = Some True, set_error = Some False, set_data = None\<rparr>,
      ''/issues/'' @ groupId @ ''/tags/user.location/'')"

definition request_success :: "body \<Rightarrow> view_state \<Rightarrow> view_state" where
  "request_success d s =
     setState s \<lparr>set_loading = Some False, set_error = Some False, set_data = Some d\<rparr>"

definition request_error :: "view_state \<Rightarrow> view_state" where
  "request_error s =
     setState s \<lparr>set_loading = Some False, set_error = Some True, set_data = None\<rparr>"

definition componentWillMount :: "string \<Rightarrow> view_state \<times> string" where
  "componentWillMount groupId = fetchData groupId getInitialState"

text \<open>
  What the API client does with a request: it calls the success callback with the body,
  or the error callback. \<open>run\<close> is the state of a mounted component after a sequence of
  such calls, oldest first.
\<close>

datatype outcome = Success body | Failure

fun deliver :: "view_state \<Rightarrow> outcome \<Rightarrow> view_state" where
  "deliver s (Success d) = request_success d s"
| "deliver s Failure = request_error s"

definition run :: "string \<Rightarrow> outcome list \<Rightarrow> view_state" where
  "run groupId os = foldl deliver (fst (componentWillMount groupId)) os"

subsection \<open>Rendering\<close>

text \<open>
  \<^verbatim>\<open>countryCodes\<close> is imported from \<^verbatim>\<open>utils/countryCodes\<close>, which is not part of the
  sources: \<^verbatim>\<open>render\<close> takes the lookup \<^verbatim>\<open>countryCodes[k]\<close> as a parameter, \<open>None\<close> being
  \<^verbatim>\<open>undefined\<close>. Reading \<^verbatim>\<open>topValues\<close> of \<^verbatim>\<open>null\<close> or \<^verbatim>\<open>undefined\<close> throws a TypeError, and
  so does calling \<^verbatim>\<open>map\<close> on the \<^verbatim>\<open>undefined\<close> that a body without \<^verbatim>\<open>topValues\<close> gives.
\<close>

datatype 'c element =
  LoadingIndicator
| LoadingError
| GeoMap "('c option \<times> int) list"

datatype js_error = TypeError

definition series :: "(string \<Rightarrow> 'c option) \<Rightarrow> response \<Rightarrow> ('c option \<times> int) list" where
  "series countryCodes d =
     map (\<lambda>tag. (countryCodes (tag_value tag), tag_count tag)) (topValues d)"

definition render :: "(string \<Rightarrow> 'c option) \<Rightarrow> view_state \<Rightarrow> js_error + 'c element" where
  "render countryCodes s =
     (if loading s then Inr LoadingIndicator
      else if error s then Inr LoadingError
      else (case data s of
              NullBody \<Rightarrow> Inl TypeError
            | UndefinedBody \<Rightarrow> Inl TypeError
            | OtherBody \<Rightarrow> Inl TypeError
            | TagResponse d \<Rightarrow> Inr (GeoMap (series countryCodes d))))"

text \<open>
  The lookup \<^verbatim>\<open>countryCodes[k]\<close> when the table is an ordinary object with the given own
  properties: a key the object does not have is looked up in \<^verbatim>\<open>Object.prototype\<close>, whose
  members are inherited under the names below, and only then reads as \<^verbatim>\<open>undefined\<close>.
\<close>

datatype 'c member =
  Own 'c
| Inherited string

definition Object_prototype :: "string list" where
  "Object_prototype =
     [''constructor'', ''hasOwnProperty'', ''isPrototypeOf'', ''propertyIsEnumerable'',
      ''toLocaleString'', ''toString'', ''valueOf'', ''__proto__'',
      ''__defineGetter__'', ''__defineSetter__'', ''__lookupGetter__'', ''__lookupSetter__'']"

definition bracket_lookup :: "(string \<rightharpoonup> 'c) \<Rightarrow> string \<Rightarrow> 'c member option" where
  "bracket_lookup table k =
     (case table k of
        Some c \<Rightarrow> Some (Own c)
      | None \<Rightarrow> if k \<in> set Object_prototype then Some (Inherited k) else None)"

section \<open>The repository decorator (withRepositories)\<close>

subsection \<open>JavaScript values and objects\<close>

text \<open>
  Props, component state and the store's state are plain objects that the code spreads
  into one another, so they are maps from property names to values. A property the object
  does not have is \<open>None\<close>; a property whose value is \<^verbatim>\<open>undefined\<close> is
  \<open>Some Undefined\<close>: a spread copies the second and not the first. \<open>Object n\<close> is a
  reference to a host object (the API client, an Error, a Repository).
\<close>

datatype jsval =
  Undefined
| Null
| Bool bool
| Num int
| Str string
| Array "jsval list"
| Object nat

type_synonym obj = "string \<rightharpoonup> jsval"

text \<open>Reading \<^verbatim>\<open>o.k\<close>: a missing property reads as \<^verbatim>\<open>undefined\<close>.\<close>

definition getprop :: "obj \<Rightarrow> string \<Rightarrow> jsval" where
  "getprop ob k = (case ob k of None \<Rightarrow> Undefined | Some v \<Rightarrow> v)"

text \<open>What \<^verbatim>\<open>!v\<close> negates: arrays and objects are truthy, also when empty.\<close>

fun truthy :: "jsval \<Rightarrow> bool" where
  "truthy Undefined = False"
| "truthy Null = False"
| "truthy (Bool b) = b"
| "truthy (Num n) = (n \<noteq> 0)"
| "truthy (Str s) = (s \<noteq> [])"
| "truthy (Array xs) = True"
| "truthy (Object r) = True"

subsection \<open>The store and the action creator\<close>

text \<open>
  \<^verbatim>\<open>RepositoryStore.state\<close> is one object, written by \<^verbatim>\<open>fetchRepos\<close> field by field
  (\<^verbatim>\<open>repositoriesLoading\<close>, \<^verbatim>\<open>orgSlug\<close>). The world outside a component instance is that
  object and the side effects performed so far, oldest first: writes to the store's state
  and calls of \<^verbatim>\<open>getRepositories\<close>.
\<close>

datatype effect =
  StoreWrite string jsval
| GetRepositories jsval jsval

record world =
  RepositoryStore_state :: obj
  effects :: "effect list"

fun is_fetch :: "effect \<Rightarrow> bool" where
  "is_fetch (GetRepositories api orgSlug) = True"
| "is_fetch (StoreWrite k v) = False"

text \<open>The assignment \<^verbatim>\<open>RepositoryStore.state.k = v\<close>.\<close>

definition store_write :: "string \<Rightarrow> jsval \<Rightarrow> world \<Rightarrow> world" where
  "store_write k v w =
     w\<lparr>RepositoryStore_state := (RepositoryStore_state w)(k \<mapsto> v),
       effects := effects w @ [StoreWrite k v]\<rparr>"

text \<open>
  Modelled from the spec: \<^verbatim>\<open>RepositoryStore.get\<close> (app/stores/repositoryStore) is not part
  of the sources. The spec gives \<^verbatim>\<open>get(key) -> {repositories?, repositoriesLoading?,
  repositoriesError?}\<close>, the entry of a cache keyed by the organization, possibly empty.
  The state object carries the key it is about in \<^verbatim>\<open>orgSlug\<close>: the entry for that key is
  the state's three fields, the entry for any other key has no field.
\<close>

definition RepositoryStore_get :: "obj \<Rightarrow> jsval \<Rightarrow> obj" where
  "RepositoryStore_get st orgSlug =
     (if getprop st ''orgSlug'' = orgSlug
      then st |` {''repositories'', ''repositoriesLoading'', ''repositoriesError''}
      else Map.empty)"

text \<open>
  Modelled from the spec: \<^verbatim>\<open>getRepositories\<close> (app/actionCreators/repositories) is not
  part of the sources. The spec gives \<^verbatim>\<open>getRepositories(apiClient, {orgSlug})\<close> as
  fire-and-forget, its result delivered later through the store's notification; the comment
  in \<^verbatim>\<open>fetchRepos\<close> says its actions are queued to the back of the event loop. The call
  is recorded and the store is left as it is.
\<close>

definition getRepositories :: "jsval \<Rightarrow> jsval \<Rightarrow> world \<Rightarrow> world" where
  "getRepositories api orgSlug w = w\<lparr>effects := effects w @ [GetRepositories api orgSlug]\<rparr>"

subsection \<open>The component\<close>

definition withRepositories_getInitialState :: "obj \<Rightarrow> obj \<Rightarrow> obj" where
  "withRepositories_getInitialState props st =
     (let orgSlug = getprop props ''orgSlug'';
          repoData = RepositoryStore_get st orgSlug
      in [''repositories'' \<mapsto> Undefined,
          ''repositoriesLoading'' \<mapsto> Undefined,
          ''repositoriesError'' \<mapsto> Undefined] ++ repoData)"

definition fetchRepos :: "obj \<Rightarrow> world \<Rightarrow> world" where
  "fetchRepos props w =
     (let api = getprop props ''api'';
          orgSlug = getprop props ''orgSlug'';
          repoData = RepositoryStore_get (RepositoryStore_state w) orgSlug
      in if \<not> truthy (getprop repoData ''repositories'')
            \<and> \<not> truthy (getprop repoData ''repositoriesLoading'')
         then getRepositories api orgSlug
                (store_write ''orgSlug'' orgSlug
                   (store_write ''repositoriesLoading'' (Bool True) w))
         else w)"

definition componentDidMount :: "obj \<Rightarrow> world \<Rightarrow> world" where
  "componentDidMount props w = fetchRepos props w"

text \<open>
  \<^verbatim>\<open>onStoreUpdate\<close> runs on every notification of the store: \<^verbatim>\<open>setState({...repoData})\<close>
  merges the entry's own properties into the component state.
\<close>

definition onStoreUpdate :: "obj \<Rightarrow> obj \<Rightarrow> obj \<Rightarrow> obj" where
  "onStoreUpdate props st cstate =
     (let orgSlug = getprop props ''orgSlug'';
          repoData = RepositoryStore_get st orgSlug
      in cstate ++ repoData)"

text \<open>
  The props handed to the wrapped component: \<^verbatim>\<open>{...this.props, ...this.state}\<close>.
\<close>

definition withRepositories_render :: "obj \<Rightarrow> obj \<Rightarrow> obj" where
  "withRepositories_render props cstate = props ++ cstate"

text \<open>
  The component state of an instance created with props \<open>props0\<close> while the store's state
  was \<open>st0\<close>, after a sequence of notifications; each notification comes with the props the
  instance has and the store's state at that moment.
\<close>

definition displayed :: "obj \<Rightarrow> obj \<Rightarrow> (obj \<times> obj) list \<Rightarrow> obj" where
  "displayed props0 st0 ns =
     foldl (\<lambda>cstate (props, st). onStoreUpdate props st cstate)
       (withRepositories_getInitialState props0 st0) ns"

text \<open>
  A schedule of mounts: \<^verbatim>\<open>componentDidMount\<close> of one instance after the other, given by
  their props, with no response of the API handled in between.
\<close>

definition mounts :: "obj list \<Rightarrow> world \<Rightarrow> world" where
  "mounts ps w = foldl (\<lambda>w props. componentDidMount props w) w ps"

text \<open>The entry that an instance with these props reads from the store.\<close>

abbreviation entry_of :: "world \<Rightarrow> obj \<Rightarrow> obj" where
  "entry_of w props \<equiv> RepositoryStore_get (RepositoryStore_state w) (getprop props ''orgSlug'')"

section \<open>Properties of the geo-locations view\<close>

text \<open>
  C4. The success handler stores the response body it is given in \<open>data\<close> as it is, sets
  \<open>error\<close> to false and \<open>loading\<close> to false, whatever the body and whatever the state
  before; for a tag response \<open>d\<close> the state holds \<open>d\<close>.
\<close>

theorem success_stores_response:
  "request_success b s = \<lparr>loading = False, error = False, data = b\<rparr>
   \<and> request_success (TagResponse d) s =
       \<lparr>loading = False, error = False, data = TagResponse d\<rparr>"
  by (simp add: request_success_def setState_def)

text \<open>
  C5. The initial state is \<open>loading = true, error = false, data = null\<close>, and a render
  before any response callback shows the loading indicator: in the initial state, and in
  the state that \<^verbatim>\<open>componentWillMount\<close> leaves (\<open>run\<close> with no callback).
\<close>

theorem initial_state_renders_loading:
  "getInitialState = \<lparr>loading = True, error = False, data = NullBody\<rparr>
   \<and> render cc getInitialState = Inr LoadingIndicator
   \<and> render cc (fst (componentWillMount g)) = Inr LoadingIndicator
   \<and> render cc (run g []) = Inr LoadingIndicator"
  by (simp add: getInitialState_def render_def componentWillMount_def fetchData_def
      setState_def run_def)



text \<open>
  C3. After a successful tag response the view renders the map with the series obtained by
  mapping each entry of \<open>topValues\<close>, in order, to the pair of its country's table entry
  and its count. For \<open>US\<close> with count 5 and \<open>FR\<close> with count 2, and a table that has both,
  the series is \<open>[[coordsUS, 5], [coordsFR, 2]]\<close>.
\<close>

theorem series_maps_topValues:
  "render cc (request_success (TagResponse d) s) =
     Inr (GeoMap (map (\<lambda>t. (cc (tag_value t), tag_count t)) (topValues d)))
   \<and> render [''US'' \<mapsto> us, ''FR'' \<mapsto> fr]
        (request_success
           (TagResponse \<lparr>topValues = [\<lparr>tag_value = ''US'', tag_count = 5\<rparr>,
                         \<lparr>tag_value = ''FR'', tag_count = 2\<rparr>]\<rparr>) s) =
     Inr (GeoMap [(Some us, 5), (Some fr, 2)])"
  by (simp add: render_def series_def request_success_def setState_def)

text \<open>
  C9, as amended. The rendered series is as long as \<open>topValues\<close>, whatever the lookup: no
  tag is dropped. With the table an ordinary object, a tag value that is not a key of the
  table gives \<open>undefined\<close> paired with the tag's count, unless the value is the name of a
  member inherited from \<^verbatim>\<open>Object.prototype\<close>: then the entry is that member, paired with
  the count.
\<close>

theorem series_keeps_unknown_codes:
  "render cc (request_success (TagResponse d) s) = Inr (GeoMap (series cc d))
   \<and> length (series cc d) = length (topValues d)
   \<and> (\<forall>i < length (topValues d).
         table (tag_value (topValues d ! i)) = None \<longrightarrow>
         series (bracket_lookup table) d ! i =
           (if tag_value (topValues d ! i) \<in> set Object_prototype
            then Some (Inherited (tag_value (topValues d ! i))) else None,
            tag_count (topValues d ! i)))"
  by (simp add: render_def series_def request_success_def setState_def bracket_lookup_def)

theorem series_keeps_unknown_codes_witness:
  "length (series (bracket_lookup [''US'' \<mapsto> (1::nat)])
             \<lparr>topValues = [\<lparr>tag_value = ''US'', tag_count = 5\<rparr>,
                           \<lparr>tag_value = ''XX'', tag_count = 3\<rparr>]\<rparr>) = 2
   \<and> series (bracket_lookup [''US'' \<mapsto> (1::nat)])
         \<lparr>topValues = [\<lparr>tag_value = ''US'', tag_count = 5\<rparr>,
                       \<lparr>tag_value = ''XX'', tag_count = 3\<rparr>]\<rparr> ! 1 = (None, 3)"
proof -
  let ?t = "[''US'' \<mapsto> (1::nat)]"
  let ?d = "\<lparr>topValues = [\<lparr>tag_value = ''US'', tag_count = 5\<rparr>,
                           \<lparr>tag_value = ''XX'', tag_count = 3\<rparr>]\<rparr>"
  note th = series_keeps_unknown_codes [of "bracket_lookup ?t" ?d getInitialState ?t]
  from th have len: "length (series (bracket_lookup ?t) ?d) = 2"
    by simp
  from th have "(1::nat) < length (topValues ?d) \<longrightarrow>
      ?t (tag_value (topValues ?d ! 1)) = None \<longrightarrow>
      series (bracket_lookup ?t) ?d ! 1 =
        (if tag_value (topValues ?d ! 1) \<in> set Object_prototype
         then Some (Inherited (tag_value (topValues ?d ! 1))) else None,
         tag_count (topValues ?d ! 1))"
    by blast
  then have "series (bracket_lookup ?t) ?d ! 1 = (None, 3)"
    by (simp add: Object_prototype_def)
  with len show ?thesis
    by simp
qed

text \<open>
  C9, as stated, fails: \<open>constructor\<close> is not a key of the table, and the entry rendered
  for it is the member inherited from \<^verbatim>\<open>Object.prototype\<close>, not \<open>undefined\<close>.
\<close>

theorem series_unknown_code_counterexample:
  "[''US'' \<mapsto> (1::nat)] ''constructor'' = None
   \<and> render (bracket_lookup [''US'' \<mapsto> (1::nat)])
       (request_success
          (TagResponse \<lparr>topValues = [\<lparr>tag_value = ''constructor'', tag_count = 4\<rparr>]\<rparr>)
          getInitialState)
     = Inr (GeoMap [(Some (Inherited ''constructor''), 4)])
   \<and> series (bracket_lookup [''US'' \<mapsto> (1::nat)])
       \<lparr>topValues = [\<lparr>tag_value = ''constructor'', tag_count = 4\<rparr>]\<rparr> ! 0 \<noteq> (None, 4)"
  by (simp add: render_def series_def request_success_def setState_def bracket_lookup_def
      Object_prototype_def)

subsection \<open>Reachable states\<close>

lemma deliver_keeps_nonnull:
  assumes "loading s \<or> error s \<or> data s \<noteq> NullBody" and "out \<noteq> Success NullBody"
  shows "loading (deliver s out) \<or> error (deliver s out) \<or> data (deliver s out) \<noteq> NullBody"
  using assms by (cases out) (auto simp: request_success_def request_error_def setState_def)

lemma run_nonnull:
  "\<forall>out \<in> set os. out \<noteq> Success NullBody \<Longrightarrow>
   loading (run g os) \<or> error (run g os) \<or> data (run g os) \<noteq> NullBody"
proof (induction os rule: rev_induct)
  case Nil
  show ?case
    by (simp add: run_def componentWillMount_def fetchData_def setState_def)
next
  case (snoc out os)
  have step: "run g (os @ [out]) = deliver (run g os) out"
    by (simp add: run_def)
  from snoc.prems have "out \<noteq> Success NullBody" and "\<forall>out \<in> set os. out \<noteq> Success NullBody"
    by simp_all
  with snoc.IH deliver_keeps_nonnull [of "run g os" out] show ?case
    by (simp add: step)
qed

lemma deliver_keeps_renderable:
  assumes "loading s \<or> error s \<or> (\<exists>d. data s = TagResponse d)"
    and "out = Failure \<or> (\<exists>d. out = Success (TagResponse d))"
  shows "loading (deliver s out) \<or> error (deliver s out)
    \<or> (\<exists>d. data (deliver s out) = TagResponse d)"
  using assms by (cases out) (auto simp: request_success_def request_error_def setState_def)

lemma run_renderable:
  "\<forall>out \<in> set os. out = Failure \<or> (\<exists>d. out = Success (TagResponse d)) \<Longrightarrow>
   loading (run g os) \<or> error (run g os) \<or> (\<exists>d. data (run g os) = TagResponse d)"
proof (induction os rule: rev_induct)
  case Nil
  show ?case
    by (simp add: run_def componentWillMount_def fetchData_def setState_def)
next
  case (snoc out os)
  have step: "run g (os @ [out]) = deliver (run g os) out"
    by (simp add: run_def)
  from snoc.prems have "out = Failure \<or> (\<exists>d. out = Success (TagResponse d))"
    and "\<forall>out \<in> set os. out = Failure \<or> (\<exists>d. out = Success (TagResponse d))"
    by simp_all
  with snoc.IH deliver_keeps_renderable [of "run g os" out] show ?case
    by (simp add: step)
qed

text \<open>
  C8, as amended. In every state the mounted view reaches through response callbacks of
  which none delivered a null body, \<open>loading\<close> and \<open>error\<close> both false means that \<open>data\<close>
  is not null, so the last branch of \<^verbatim>\<open>render\<close> does not read \<^verbatim>\<open>topValues\<close> of null; and
  when every body delivered was a tag response, \<^verbatim>\<open>render\<close> never throws.
\<close>

theorem loaded_state_has_data:
  "((\<forall>out \<in> set os. out \<noteq> Success NullBody) \<longrightarrow>
      (\<not> loading (run g os) \<and> \<not> error (run g os) \<longrightarrow> data (run g os) \<noteq> NullBody))
   \<and> ((\<forall>out \<in> set os. out = Failure \<or> (\<exists>d. out = Success (TagResponse d))) \<longrightarrow>
      render cc (run g os) \<noteq> Inl TypeError)"
proof (intro conjI impI)
  assume "\<forall>out \<in> set os. out \<noteq> Success NullBody"
    and "\<not> loading (run g os) \<and> \<not> error (run g os)"
  with run_nonnull [of os g] show "data (run g os) \<noteq> NullBody"
    by blast
next
  assume "\<forall>out \<in> set os. out = Failure \<or> (\<exists>d. out = Success (TagResponse d))"
  from run_renderable [OF this, of g] show "render cc (run g os) \<noteq> Inl TypeError"
    by (auto simp: render_def)
qed

theorem loaded_state_has_data_witness:
  "\<not> loading (run ''7'' [Success (TagResponse \<lparr>topValues = []\<rparr>)])
   \<and> \<not> error (run ''7'' [Success (TagResponse \<lparr>topValues = []\<rparr>)])
   \<and> data (run ''7'' [Success (TagResponse \<lparr>topValues = []\<rparr>)]) \<noteq> NullBody
   \<and> render (Map.empty :: string \<Rightarrow> nat option)
       (run ''7'' [Success (TagResponse \<lparr>topValues = []\<rparr>)]) \<noteq> Inl TypeError"
proof -
  let ?os = "[Success (TagResponse \<lparr>topValues = []\<rparr>)]"
  have a: "\<forall>out \<in> set ?os. out \<noteq> Success NullBody"
    by simp
  have b: "\<forall>out \<in> set ?os. out = Failure \<or> (\<exists>d. out = Success (TagResponse d))"
    by simp
  have c: "\<not> loading (run ''7'' ?os) \<and> \<not> error (run ''7'' ?os)"
    by (simp add: run_def request_success_def setState_def)
  from loaded_state_has_data [of ?os "''7''" "Map.empty :: string \<Rightarrow> nat option"] a b c
  show ?thesis
    by blast
qed

text \<open>
  C8, as stated, fails: a success callback that is given \<^verbatim>\<open>null\<close> leaves \<open>loading\<close> and
  \<open>error\<close> false with \<open>data\<close> null, and \<^verbatim>\<open>render\<close> throws on \<^verbatim>\<open>this.state.data.topValues\<close>.
\<close>

theorem loaded_state_null_counterexample:
  "\<not> loading (run ''7'' [Success NullBody])
   \<and> \<not> error (run ''7'' [Success NullBody])
   \<and> data (run ''7'' [Success NullBody]) = NullBody
   \<and> render (Map.empty :: string \<Rightarrow> nat option) (run ''7'' [Success NullBody]) = Inl TypeError"
  by (simp add: run_def request_success_def setState_def render_def componentWillMount_def
      fetchData_def getInitialState_def)

section \<open>Properties of the repository decorator\<close>

subsection \<open>What \<^verbatim>\<open>fetchRepos\<close> does\<close>

lemma get_after_mark:
  "RepositoryStore_get (st(''repositoriesLoading'' \<mapsto> Bool True, ''orgSlug'' \<mapsto> k)) k
     ''repositoriesLoading'' = Some (Bool True)"
  by (simp add: RepositoryStore_get_def getprop_def)

lemma fetchRepos_fetch:
  assumes "\<not> truthy (getprop (entry_of w props) ''repositories'')"
    and "\<not> truthy (getprop (entry_of w props) ''repositoriesLoading'')"
  shows "fetchRepos props w =
     \<lparr>RepositoryStore_state =
        (RepositoryStore_state w)(''repositoriesLoading'' \<mapsto> Bool True,
                                  ''orgSlug'' \<mapsto> getprop props ''orgSlug''),
      effects = effects w @
        [StoreWrite ''repositoriesLoading'' (Bool True),
         StoreWrite ''orgSlug'' (getprop props ''orgSlug''),
         GetRepositories (getprop props ''api'') (getprop props ''orgSlug'')]\<rparr>"
  using assms by (simp add: fetchRepos_def Let_def getRepositories_def store_write_def)

lemma fetchRepos_skip:
  assumes "truthy (getprop (entry_of w props) ''repositories'')
    \<or> truthy (getprop (entry_of w props) ''repositoriesLoading'')"
  shows "fetchRepos props w = w"
  using assms by (auto simp add: fetchRepos_def Let_def)

lemma second_mount_skips:
  assumes k: "getprop p1 ''orgSlug'' = getprop p2 ''orgSlug''"
  shows "fetchRepos p2 (fetchRepos p1 w) = fetchRepos p1 w"
proof (cases "\<not> truthy (getprop (entry_of w p1) ''repositories'')
    \<and> \<not> truthy (getprop (entry_of w p1) ''repositoriesLoading'')")
  case True
  then have "getprop (entry_of (fetchRepos p1 w) p2) ''repositoriesLoading'' = Bool True"
    using k by (simp add: fetchRepos_fetch getprop_def [of "RepositoryStore_get _ _"] get_after_mark)
  then show ?thesis
    by (simp add: fetchRepos_skip)
next
  case False
  then have same: "fetchRepos p1 w = w"
    by (simp add: fetchRepos_skip)
  from False k have "truthy (getprop (entry_of w p2) ''repositories'')
    \<or> truthy (getprop (entry_of w p2) ''repositoriesLoading'')"
    by auto
  then show ?thesis
    by (simp add: same fetchRepos_skip)
qed

text \<open>
  C6. On mount the decorator reads the store's entry for its \<open>orgSlug\<close>. When the entry has
  neither repositories nor a loading flag that is set, it writes \<open>repositoriesLoading = true\<close>
  and \<open>orgSlug\<close> into the store's state and then calls \<^verbatim>\<open>getRepositories\<close>, in that order and
  with nothing else; in every other case it leaves the store as it is and calls nothing.
\<close>

theorem mount_marks_then_fetches:
  "(\<not> truthy (getprop (entry_of w props) ''repositories'')
    \<and> \<not> truthy (getprop (entry_of w props) ''repositoriesLoading'')
    \<longrightarrow>
      effects (componentDidMount props w) = effects w @
        [StoreWrite ''repositoriesLoading'' (Bool True),
         StoreWrite ''orgSlug'' (getprop props ''orgSlug''),
         GetRepositories (getprop props ''api'') (getprop props ''orgSlug'')]
      \<and> RepositoryStore_state (componentDidMount props w) =
        (RepositoryStore_state w)(''repositoriesLoading'' \<mapsto> Bool True,
                                  ''orgSlug'' \<mapsto> getprop props ''orgSlug''))
   \<and> (truthy (getprop (entry_of w props) ''repositories'')
      \<or> truthy (getprop (entry_of w props) ''repositoriesLoading'')
    \<longrightarrow> componentDidMount props w = w)"
proof (intro conjI impI)
  assume "\<not> truthy (getprop (entry_of w props) ''repositories'')
    \<and> \<not> truthy (getprop (entry_of w props) ''repositoriesLoading'')"
  then have eq: "fetchRepos props w =
     \<lparr>RepositoryStore_state =
        (RepositoryStore_state w)(''repositoriesLoading'' \<mapsto> Bool True,
                                  ''orgSlug'' \<mapsto> getprop props ''orgSlug''),
      effects = effects w @
        [StoreWrite ''repositoriesLoading'' (Bool True),
         StoreWrite ''orgSlug'' (getprop props ''orgSlug''),
         GetRepositories (getprop props ''api'') (getprop props ''orgSlug'')]\<rparr>"
    by (simp add: fetchRepos_fetch)
  show "effects (componentDidMount props w) = effects w @
        [StoreWrite ''repositoriesLoading'' (Bool True),
         StoreWrite ''orgSlug'' (getprop props ''orgSlug''),
         GetRepositories (getprop props ''api'') (getprop props ''orgSlug'')]"
    by (simp add: componentDidMount_def eq)
  show "RepositoryStore_state (componentDidMount props w) =
        (RepositoryStore_state w)(''repositoriesLoading'' \<mapsto> Bool True,
                                  ''orgSlug'' \<mapsto> getprop props ''orgSlug'')"
    by (simp add: componentDidMount_def eq)
next
  assume "truthy (getprop (entry_of w props) ''repositories'')
      \<or> truthy (getprop (entry_of w props) ''repositoriesLoading'')"
  then show "componentDidMount props w = w"
    by (simp add: componentDidMount_def fetchRepos_skip)
qed

theorem mount_marks_then_fetches_witness:
  "effects (componentDidMount [''api'' \<mapsto> Object 0, ''orgSlug'' \<mapsto> Str ''acme'']
      \<lparr>RepositoryStore_state = Map.empty, effects = []\<rparr>) =
     [StoreWrite ''repositoriesLoading'' (Bool True),
      StoreWrite ''orgSlug'' (Str ''acme''),
      GetRepositories (Object 0) (Str ''acme'')]
   \<and> componentDidMount [''api'' \<mapsto> Object 0, ''orgSlug'' \<mapsto> Str ''acme'']
      \<lparr>RepositoryStore_state =
         [''orgSlug'' \<mapsto> Str ''acme'', ''repositories'' \<mapsto> Array []],
       effects = []\<rparr> =
     \<lparr>RepositoryStore_state =
         [''orgSlug'' \<mapsto> Str ''acme'', ''repositories'' \<mapsto> Array []],
       effects = []\<rparr>"
proof -
  let ?p = "[''api'' \<mapsto> Object 0, ''orgSlug'' \<mapsto> Str ''acme'']"
  let ?fresh = "\<lparr>RepositoryStore_state = Map.empty, effects = []\<rparr>"
  let ?loaded = "\<lparr>RepositoryStore_state =
         [''orgSlug'' \<mapsto> Str ''acme'', ''repositories'' \<mapsto> Array []],
       effects = []\<rparr>"
  have a: "\<not> truthy (getprop (entry_of ?fresh ?p) ''repositories'')
    \<and> \<not> truthy (getprop (entry_of ?fresh ?p) ''repositoriesLoading'')"
    by (simp add: getprop_def RepositoryStore_get_def)
  have b: "truthy (getprop (entry_of ?loaded ?p) ''repositories'')
    \<or> truthy (getprop (entry_of ?loaded ?p) ''repositoriesLoading'')"
    by (simp add: getprop_def RepositoryStore_get_def)
  from mount_marks_then_fetches [of ?fresh ?p] a
  have "effects (componentDidMount ?p ?fresh) = effects ?fresh @
        [StoreWrite ''repositoriesLoading'' (Bool True),
         StoreWrite ''orgSlug'' (getprop ?p ''orgSlug''),
         GetRepositories (getprop ?p ''api'') (getprop ?p ''orgSlug'')]"
    by blast
  then have one: "effects (componentDidMount ?p ?fresh) =
     [StoreWrite ''repositoriesLoading'' (Bool True),
      StoreWrite ''orgSlug'' (Str ''acme''),
      GetRepositories (Object 0) (Str ''acme'')]"
    by (simp add: getprop_def)
  from mount_marks_then_fetches [of ?loaded ?p] b
  have "componentDidMount ?p ?loaded = ?loaded"
    by blast
  with one show ?thesis
    by simp
qed

lemma later_mounts_skip:
  "\<forall>p \<in> set ps. getprop p ''orgSlug'' = getprop p1 ''orgSlug'' \<Longrightarrow>
   mounts ps (fetchRepos p1 w) = fetchRepos p1 w"
proof (induction ps)
  case Nil
  show ?case
    by (simp add: mounts_def)
next
  case (Cons p ps)
  from Cons.prems have "getprop p1 ''orgSlug'' = getprop p ''orgSlug''"
    by simp
  then have "fetchRepos p (fetchRepos p1 w) = fetchRepos p1 w"
    by (rule second_mount_skips)
  moreover have "mounts (p # ps) (fetchRepos p1 w) = mounts ps (fetchRepos p (fetchRepos p1 w))"
    by (simp add: mounts_def componentDidMount_def)
  moreover from Cons have "mounts ps (fetchRepos p1 w) = fetchRepos p1 w"
    by simp
  ultimately show ?case
    by simp
qed

text \<open>
  C2, as amended. Two instances with the same \<open>orgSlug\<close> mount, the first with props \<open>p1\<close>
  and the second with props \<open>p2\<close>, with no response handled in between, and every instance
  that mounts between them (\<open>ps\<close>) has that \<open>orgSlug\<close> too. All mounts after the first change
  nothing: they issue no fetch. When the store's entry for the key had neither
  repositories nor a set loading flag, exactly one call of \<^verbatim>\<open>getRepositories\<close> is added,
  by the first mount, after the two writes that mark the store as loading; the entry that
  the second instance reads has the loading flag set.
\<close>

theorem same_key_mounts_fetch_once:
  assumes k: "\<forall>p \<in> set (ps @ [p2]). getprop p ''orgSlug'' = getprop p1 ''orgSlug''"
  shows "mounts (ps @ [p2]) (componentDidMount p1 w) = componentDidMount p1 w
    \<and> componentDidMount p2 (mounts (p1 # ps) w) = mounts (p1 # ps) w
    \<and> (\<not> truthy (getprop (entry_of w p1) ''repositories'')
       \<and> \<not> truthy (getprop (entry_of w p1) ''repositoriesLoading'') \<longrightarrow>
         filter is_fetch (effects (mounts (p1 # ps @ [p2]) w)) =
           filter is_fetch (effects w)
             @ [GetRepositories (getprop p1 ''api'') (getprop p1 ''orgSlug'')]
         \<and> effects (componentDidMount p1 w) = effects w @
             [StoreWrite ''repositoriesLoading'' (Bool True),
              StoreWrite ''orgSlug'' (getprop p1 ''orgSlug''),
              GetRepositories (getprop p1 ''api'') (getprop p1 ''orgSlug'')]
         \<and> getprop (entry_of (mounts (p1 # ps) w) p2) ''repositoriesLoading'' = Bool True)"
proof (intro conjI impI)
  from k have kps: "\<forall>p \<in> set ps. getprop p ''orgSlug'' = getprop p1 ''orgSlug''"
    and k2: "getprop p1 ''orgSlug'' = getprop p2 ''orgSlug''"
    by simp_all
  show rest: "mounts (ps @ [p2]) (componentDidMount p1 w) = componentDidMount p1 w"
    using k by (simp only: componentDidMount_def later_mounts_skip)
  have upto: "mounts (p1 # ps) w = fetchRepos p1 w"
    using later_mounts_skip [OF kps, of w] by (simp add: mounts_def componentDidMount_def)
  have whole: "mounts (p1 # ps @ [p2]) w = fetchRepos p1 w"
    using rest by (simp add: mounts_def componentDidMount_def)
  show "componentDidMount p2 (mounts (p1 # ps) w) = mounts (p1 # ps) w"
    using k2 by (simp add: upto componentDidMount_def second_mount_skips)
  assume a: "\<not> truthy (getprop (entry_of w p1) ''repositories'')
       \<and> \<not> truthy (getprop (entry_of w p1) ''repositoriesLoading'')"
  then have first: "effects (fetchRepos p1 w) = effects w @
             [StoreWrite ''repositoriesLoading'' (Bool True),
              StoreWrite ''orgSlug'' (getprop p1 ''orgSlug''),
              GetRepositories (getprop p1 ''api'') (getprop p1 ''orgSlug'')]"
    by (simp add: fetchRepos_fetch)
  then show "effects (componentDidMount p1 w) = effects w @
             [StoreWrite ''repositoriesLoading'' (Bool True),
              StoreWrite ''orgSlug'' (getprop p1 ''orgSlug''),
              GetRepositories (getprop p1 ''api'') (getprop p1 ''orgSlug'')]"
    by (simp add: componentDidMount_def)
  from first show "filter is_fetch (effects (mounts (p1 # ps @ [p2]) w)) =
           filter is_fetch (effects w)
             @ [GetRepositories (getprop p1 ''api'') (getprop p1 ''orgSlug'')]"
    by (simp add: whole)
  from a k2 show "getprop (entry_of (mounts (p1 # ps) w) p2) ''repositoriesLoading'' = Bool True"
    by (simp add: upto fetchRepos_fetch
        getprop_def [of "RepositoryStore_get _ _"] get_after_mark)
qed

theorem same_key_mounts_fetch_once_witness:
  "filter is_fetch
     (effects (mounts [[''api'' \<mapsto> Object 0, ''orgSlug'' \<mapsto> Str ''acme''],
                       [''api'' \<mapsto> Object 2, ''orgSlug'' \<mapsto> Str ''acme''],
                       [''api'' \<mapsto> Object 1, ''orgSlug'' \<mapsto> Str ''acme'']]
        \<lparr>RepositoryStore_state = Map.empty, effects = []\<rparr>))
   = [GetRepositories (Object 0) (Str ''acme'')]"
proof -
  let ?p1 = "[''api'' \<mapsto> Object 0, ''orgSlug'' \<mapsto> Str ''acme'']"
  let ?pm = "[''api'' \<mapsto> Object 2, ''orgSlug'' \<mapsto> Str ''acme'']"
  let ?p2 = "[''api'' \<mapsto> Object 1, ''orgSlug'' \<mapsto> Str ''acme'']"
  let ?w = "\<lparr>RepositoryStore_state = Map.empty, effects = []\<rparr>"
  have k: "\<forall>p \<in> set ([?pm] @ [?p2]). getprop p ''orgSlug'' = getprop ?p1 ''orgSlug''"
    by (simp add: getprop_def)
  have e: "\<not> truthy (getprop (entry_of ?w ?p1) ''repositories'')
       \<and> \<not> truthy (getprop (entry_of ?w ?p1) ''repositoriesLoading'')"
    by (simp add: getprop_def RepositoryStore_get_def)
  from same_key_mounts_fetch_once [OF k, of ?w] e
  have "filter is_fetch (effects (mounts (?p1 # [?pm] @ [?p2]) ?w)) =
      filter is_fetch (effects ?w) @ [GetRepositories (getprop ?p1 ''api'') (getprop ?p1 ''orgSlug'')]"
    by blast
  then show ?thesis
    by (simp add: getprop_def)
qed

text \<open>
  C2, as stated, fails: the store's state holds one \<open>orgSlug\<close>. When an instance for
  another key mounts between two instances for \<open>acme\<close>, it overwrites that field, the
  second instance for \<open>acme\<close> reads an entry without a loading flag, and
  \<^verbatim>\<open>getRepositories\<close> is called twice for \<open>acme\<close> with no response handled.
\<close>

theorem same_key_mounts_counterexample:
  "filter is_fetch
     (effects (mounts [[''api'' \<mapsto> Object 0, ''orgSlug'' \<mapsto> Str ''acme''],
                       [''api'' \<mapsto> Object 0, ''orgSlug'' \<mapsto> Str ''other''],
                       [''api'' \<mapsto> Object 0, ''orgSlug'' \<mapsto> Str ''acme'']]
        \<lparr>RepositoryStore_state = Map.empty, effects = []\<rparr>))
   = [GetRepositories (Object 0) (Str ''acme''),
      GetRepositories (Object 0) (Str ''other''),
      GetRepositories (Object 0) (Str ''acme'')]"
  by (simp add: mounts_def componentDidMount_def fetchRepos_def RepositoryStore_get_def
      getprop_def store_write_def getRepositories_def restrict_map_def Let_def)

subsection \<open>Notifications of the store\<close>

text \<open>
  C7. The store notifies while its state is about key \<open>K\<close>. An instance whose \<open>orgSlug\<close> is
  \<open>K\<close> merges the store's three entry fields into its state; the state of an instance bound
  to another key is what it was.
\<close>

theorem store_update_reaches_own_key_only:
  assumes "getprop st ''orgSlug'' = K"
  shows "(getprop propsA ''orgSlug'' = K \<longrightarrow>
            onStoreUpdate propsA st a =
              a ++ (st |` {''repositories'', ''repositoriesLoading'', ''repositoriesError''}))
       \<and> (getprop propsB ''orgSlug'' \<noteq> K \<longrightarrow> onStoreUpdate propsB st b = b)"
  using assms by (auto simp add: onStoreUpdate_def RepositoryStore_get_def)

theorem store_update_reaches_own_key_only_witness:
  "getprop (onStoreUpdate [''orgSlug'' \<mapsto> Str ''acme'']
              [''orgSlug'' \<mapsto> Str ''acme'', ''repositories'' \<mapsto> Array [Object 7],
               ''repositoriesLoading'' \<mapsto> Bool False]
              [''repositories'' \<mapsto> Undefined, ''repositoriesLoading'' \<mapsto> Bool True,
               ''repositoriesError'' \<mapsto> Undefined]) ''repositories'' = Array [Object 7]
   \<and> onStoreUpdate [''orgSlug'' \<mapsto> Str ''other'']
              [''orgSlug'' \<mapsto> Str ''acme'', ''repositories'' \<mapsto> Array [Object 7],
               ''repositoriesLoading'' \<mapsto> Bool False]
              [''repositories'' \<mapsto> Array [Object 3], ''repositoriesLoading'' \<mapsto> Bool False,
               ''repositoriesError'' \<mapsto> Undefined]
     = [''repositories'' \<mapsto> Array [Object 3], ''repositoriesLoading'' \<mapsto> Bool False,
               ''repositoriesError'' \<mapsto> Undefined]"
proof -
  let ?st = "[''orgSlug'' \<mapsto> Str ''acme'', ''repositories'' \<mapsto> Array [Object 7],
               ''repositoriesLoading'' \<mapsto> Bool False]"
  let ?pa = "[''orgSlug'' \<mapsto> Str ''acme'']"
  let ?pb = "[''orgSlug'' \<mapsto> Str ''other'']"
  let ?a = "[''repositories'' \<mapsto> Undefined, ''repositoriesLoading'' \<mapsto> Bool True,
               ''repositoriesError'' \<mapsto> Undefined]"
  let ?b = "[''repositories'' \<mapsto> Array [Object 3], ''repositoriesLoading'' \<mapsto> Bool False,
               ''repositoriesError'' \<mapsto> Undefined]"
  have k: "getprop ?st ''orgSlug'' = Str ''acme''"
    by (simp add: getprop_def)
  have ka: "getprop ?pa ''orgSlug'' = Str ''acme''"
    by (simp add: getprop_def)
  have kb: "getprop ?pb ''orgSlug'' \<noteq> Str ''acme''"
    by (simp add: getprop_def)
  note th = store_update_reaches_own_key_only [OF k, of ?pa ?a ?pb ?b]
  from th ka have "onStoreUpdate ?pa ?st ?a =
      ?a ++ (?st |` {''repositories'', ''repositoriesLoading'', ''repositoriesError''})"
    by blast
  then have one: "getprop (onStoreUpdate ?pa ?st ?a) ''repositories'' = Array [Object 7]"
    by (simp add: getprop_def map_add_def restrict_map_def)
  from th kb have "onStoreUpdate ?pb ?st ?b = ?b"
    by blast
  with one show ?thesis
    by simp
qed

subsection \<open>Rendering the wrapped component\<close>

lemma onStoreUpdate_keeps_key: "cstate f \<noteq> None \<Longrightarrow> onStoreUpdate props st cstate f \<noteq> None"
  by (simp add: onStoreUpdate_def Let_def map_add_def split: option.splits)

lemma notifications_keep_key:
  "cstate f \<noteq> None \<Longrightarrow>
   foldl (\<lambda>cstate (props, st). onStoreUpdate props st cstate) cstate ns f \<noteq> None"
proof (induction ns arbitrary: cstate)
  case Nil
  then show ?case by simp
next
  case (Cons n ns)
  obtain props st where n: "n = (props, st)"
    by (cases n)
  from Cons.prems have "onStoreUpdate props st cstate f \<noteq> None"
    by (rule onStoreUpdate_keeps_key)
  then show ?case
    using Cons.IH [of "onStoreUpdate props st cstate"] by (simp add: n)
qed

lemma initial_state_has_key:
  "f \<in> {''repositories'', ''repositoriesLoading'', ''repositoriesError''} \<Longrightarrow>
   withRepositories_getInitialState props st f \<noteq> None"
  by (auto simp add: withRepositories_getInitialState_def Let_def map_add_def split: option.splits)

text \<open>
  C10. In every state the decorator reaches (its initial state, then any notifications), each
  of \<open>repositories\<close>, \<open>repositoriesLoading\<close> and \<open>repositoriesError\<close> is a property of the
  state, possibly \<open>undefined\<close>; the state is spread after the props, so the wrapped component
  gets the state's value under these names, whatever the caller passed.
\<close>

theorem injected_state_overrides_props:
  assumes "f \<in> {''repositories'', ''repositoriesLoading'', ''repositoriesError''}"
  shows "displayed props0 st0 ns f \<noteq> None
     \<and> withRepositories_render props (displayed props0 st0 ns) f = displayed props0 st0 ns f
     \<and> getprop (withRepositories_render props (displayed props0 st0 ns)) f =
         getprop (displayed props0 st0 ns) f"
proof -
  have own: "displayed props0 st0 ns f \<noteq> None"
    unfolding displayed_def
    by (rule notifications_keep_key) (rule initial_state_has_key [OF assms])
  then have "withRepositories_render props (displayed props0 st0 ns) f = displayed props0 st0 ns f"
    by (auto simp add: withRepositories_render_def map_add_def split: option.splits)
  with own show ?thesis
    by (simp add: getprop_def)
qed

theorem injected_state_overrides_props_witness:
  "getprop [''orgSlug'' \<mapsto> Str ''acme'', ''repositories'' \<mapsto> Array [Object 5]] ''repositories''
     = Array [Object 5]
   \<and> withRepositories_render [''orgSlug'' \<mapsto> Str ''acme'', ''repositories'' \<mapsto> Array [Object 5]]
       (displayed [''orgSlug'' \<mapsto> Str ''acme'', ''repositories'' \<mapsto> Array [Object 5]] Map.empty [])
       ''repositories'' = Some Undefined"
proof -
  let ?p = "[''orgSlug'' \<mapsto> Str ''acme'', ''repositories'' \<mapsto> Array [Object 5]]"
  have m: "''repositories'' \<in> {''repositories'', ''repositoriesLoading'', ''repositoriesError''}"
    by simp
  have d: "displayed ?p Map.empty [] ''repositories'' = Some Undefined"
    by (simp add: displayed_def withRepositories_getInitialState_def RepositoryStore_get_def
        getprop_def)
  from injected_state_overrides_props [OF m, of ?p Map.empty "[]" ?p] d show ?thesis
    by (simp add: getprop_def)
qed

end
